theory Spec2Isabelle
  imports Complex_Main "HOL-Library.Sublist"
begin

text \<open>
  A model of the retrieval engine of the repository, the class \<open>PDFProcessor\<close>:
  \<open>splitIntoChunks\<close> cuts the text of a document into overlapping chunks,
  \<open>processPDF\<close> embeds the chunks and adds them to a flat vector index,
  \<open>searchSimilarChunks\<close> maps the rows the index returns for a query back to chunks,
  and \<open>query\<close> sends them to the language model.
\<close>

section \<open>The string primitives of the chunker\<close>

text \<open>
  The text of a document is a \<open>string\<close>, a list of code units (those below 256; the
  functions below tell the period, the newline and the white space from the rest, and
  nothing else). Positions are integers, because the cursor of \<open>splitIntoChunks\<close> is
  computed by subtraction and may leave the range of the text.

  \<open>lastIndexOf text c pos\<close> is JavaScript's \<open>text.lastIndexOf(c, pos)\<close> for a search
  string of one character: the position is clamped between \<open>0\<close> and \<open>length - 1\<close>, the
  greatest index at or below it that holds \<open>c\<close> is returned, and \<open>-1\<close> when there is none.
\<close>

fun lastIndexFrom :: "string \<Rightarrow> char \<Rightarrow> nat \<Rightarrow> int" where
  "lastIndexFrom text c 0 = (if text \<noteq> [] \<and> text ! 0 = c then 0 else - 1)"
| "lastIndexFrom text c (Suc k) =
     (if Suc k < length text \<and> text ! Suc k = c then int (Suc k)
      else lastIndexFrom text c k)"

definition lastIndexOf :: "string \<Rightarrow> char \<Rightarrow> int \<Rightarrow> int" where
  "lastIndexOf text c pos =
     lastIndexFrom text c (nat (min (max pos 0) (int (length text) - 1)))"

text \<open>
  \<open>slice text a b\<close> is \<open>text.slice(a, b)\<close>: a negative bound counts from the end of the
  text, both bounds are clamped to the text, and the result is empty when the bounds cross.
\<close>

definition slice :: "string \<Rightarrow> int \<Rightarrow> int \<Rightarrow> string" where
  "slice text a b =
     (let len = int (length text);
          from = (if a < 0 then max (len + a) 0 else min a len);
          to = (if b < 0 then max (len + b) 0 else min b len)
      in take (nat (to - from)) (drop (nat from) text))"

text \<open>
  \<open>trim\<close> removes the white space and line terminators of JavaScript at both ends; among
  the code units below 256 these are 9 to 13, 32 and 160.
\<close>

definition isWhiteSpace :: "char \<Rightarrow> bool" where
  "isWhiteSpace c \<longleftrightarrow> of_char c \<in> {9, 10, 11, 12, 13, 32, 160 :: nat}"

definition trim :: "string \<Rightarrow> string" where
  "trim s = rev (dropWhile isWhiteSpace (rev (dropWhile isWhiteSpace s)))"

section \<open>splitIntoChunks\<close>

text \<open>
  \<open>breakPoint\<close> is \<open>Math.max(lastPeriod, lastNewline)\<close> of the loop body, looking backward
  from the proposed end.
\<close>

definition breakPoint :: "string \<Rightarrow> int \<Rightarrow> int" where
  "breakPoint text end =
     max (lastIndexOf text CHR ''.'' end) (lastIndexOf text (CHR 0x0A) end)"

text \<open>
  \<open>chunkEnd\<close> is the value of \<open>end\<close> when the slice is taken. The test of the source,
  \<open>breakPoint > start + chunkSize * 0.5\<close>, is written on the doubled integers
  (lemma \<open>midpoint_test\<close> below relates the two).
\<close>

definition chunkEnd :: "string \<Rightarrow> int \<Rightarrow> int \<Rightarrow> int" where
  "chunkEnd text chunkSize start =
     (let end = start + chunkSize in
      if end < int (length text) then
        (if 2 * start + chunkSize < 2 * breakPoint text end
         then breakPoint text end + 1 else end)
      else end)"

definition chunkAt :: "string \<Rightarrow> int \<Rightarrow> int \<Rightarrow> string" where
  "chunkAt text chunkSize start = trim (slice text start (chunkEnd text chunkSize start))"

text \<open>
  The \<open>while\<close> loop, with the cursor \<open>start\<close> and the list \<open>chunks\<close> as its state. The
  loop of the source has no bound on its iterations, so the model is a partial function:
  \<open>None\<close> is a run that never leaves the loop.
\<close>

partial_function (option) splitLoop ::
  "string \<Rightarrow> int \<Rightarrow> int \<Rightarrow> int \<Rightarrow> string list \<Rightarrow> string list option" where
  "splitLoop text chunkSize overlap start chunks =
     (if start < int (length text) then
        splitLoop text chunkSize overlap (chunkEnd text chunkSize start - overlap)
          (if chunkAt text chunkSize start \<noteq> []
           then chunks @ [chunkAt text chunkSize start] else chunks)
      else Some chunks)"

definition splitIntoChunks :: "string \<Rightarrow> int \<Rightarrow> int \<Rightarrow> string list option" where
  "splitIntoChunks text chunkSize overlap = splitLoop text chunkSize overlap 0 []"

text \<open>
  The nearest sentence terminator at or before a position, as a property of the text
  alone: \<open>p\<close> holds a \<open>.\<close> or a newline, lies in the text at or before \<open>end\<close>, and no
  position after \<open>p\<close> up to \<open>end\<close> holds one. It is used to state what \<open>breakPoint\<close>
  finds; the loop does not call it.
\<close>

definition isTerminator :: "char \<Rightarrow> bool" where
  "isTerminator c \<longleftrightarrow> c = CHR ''.'' \<or> c = CHR 0x0A"

definition isBreakCandidate :: "string \<Rightarrow> int \<Rightarrow> int \<Rightarrow> bool" where
  "isBreakCandidate text end p \<longleftrightarrow>
     0 \<le> p \<and> p \<le> end \<and> p < int (length text) \<and> isTerminator (text ! nat p) \<and>
     (\<forall>q \<in> {p <.. min end (int (length text) - 1)}. \<not> isTerminator (text ! nat q))"

section \<open>The processor and its collaborators\<close>

text \<open>
  The errors the methods throw, as values. The source throws \<open>Error\<close> objects that differ
  in their origin only; each constructor is one origin.
\<close>

datatype error =
  ModelInitFailed
  | PdfExtractionFailed
  | EmbeddingFailed
  | IndexUnavailable
  | NoRelevantChunksFound
  | PerplexityFailed

text \<open>
  The libraries the class calls are parameters of the model: \<open>loadModel\<close> tells whether
  \<open>pipeline(...)\<close> succeeds, \<open>readPdf\<close> is \<open>fs.readFileSync\<close> followed by \<open>pdf(...)\<close>,
  \<open>embed\<close> is the call of \<open>this.embedder\<close> (a vector of type \<open>'v\<close>), \<open>search\<close> is
  \<open>IndexFlatL2.search\<close> on the rows the index holds (its \<open>indices\<close> and \<open>distances\<close>
  arrays, row by row, as a list of pairs) and \<open>askPerplexity\<close> is \<open>queryPerplexity\<close>.
  \<open>None\<close> is a call that throws. Distances are real numbers.
\<close>

record 'v env =
  loadModel :: bool
  readPdf :: "string \<Rightarrow> string option"
  embed :: "string \<Rightarrow> 'v option"
  search :: "'v list \<Rightarrow> 'v \<Rightarrow> nat \<Rightarrow> (int \<times> real) list option"
  askPerplexity :: "string \<Rightarrow> string \<Rightarrow> string option"

record chunkMeta =
  chunkIndex :: nat
  startChar :: nat
  endChar :: nat
  pageNumber :: nat

text \<open>
  The fields of \<open>PDFProcessor\<close>. \<open>faissIndex\<close> is \<open>None\<close> while the field is \<open>null\<close>,
  and otherwise the rows added so far, in the order of their ids. The field \<open>embedder\<close>
  is set exactly when \<open>initialized\<close> is, and has no field of its own here.
\<close>

record 'v processor =
  chunks :: "string list"
  metadata :: "chunkMeta list"
  faissIndex :: "'v list option"
  initialized :: bool

definition newProcessor :: "'v processor" where
  "newProcessor = \<lparr>chunks = [], metadata = [], faissIndex = None, initialized = False\<rparr>"

definition initialize :: "'v env \<Rightarrow> 'v processor \<Rightarrow> error + 'v processor" where
  "initialize env p =
     (if initialized p then Inr p
      else if loadModel env then Inr (p\<lparr>faissIndex := Some [], initialized := True\<rparr>)
      else Inl ModelInitFailed)"

text \<open>The object pushed on \<open>this.metadata\<close> in iteration \<open>i\<close>, for a text of length \<open>len\<close>.\<close>

definition metadataEntry :: "nat \<Rightarrow> nat \<Rightarrow> chunkMeta" where
  "metadataEntry len i =
     \<lparr>chunkIndex = i, startChar = i * 500, endChar = min ((i + 1) * 500) len,
      pageNumber = i div 5 + 1\<rparr>"

text \<open>
  The \<open>for\<close> loop of \<open>processPDF\<close> over the chunks that remain, with the counter \<open>i\<close>,
  the local array \<open>embeddings\<close> and the field \<open>metadata\<close>. When the embedder throws,
  the entries pushed so far stay in \<open>metadata\<close> and no embeddings are returned.
\<close>

fun embedChunks ::
  "'v env \<Rightarrow> nat \<Rightarrow> string list \<Rightarrow> nat \<Rightarrow> 'v list \<Rightarrow> chunkMeta list
     \<Rightarrow> chunkMeta list \<times> 'v list option" where
  "embedChunks env len [] i embeddings md = (md, Some embeddings)"
| "embedChunks env len (chunk # rest) i embeddings md =
     (case embed env chunk of
        None \<Rightarrow> (md, None)
      | Some v \<Rightarrow>
          embedChunks env len rest (Suc i) (embeddings @ [v]) (md @ [metadataEntry len i]))"

text \<open>
  \<open>processPDF\<close> returns the processor as the call leaves it, with the error it throws
  or \<open>Inr ()\<close>; \<open>None\<close> is a call that does not return.
\<close>

definition processPDF ::
  "'v env \<Rightarrow> 'v processor \<Rightarrow> string \<Rightarrow> ('v processor \<times> (error + unit)) option" where
  "processPDF env p filePath =
     (case initialize env p of
        Inl e \<Rightarrow> Some (p, Inl e)
      | Inr p1 \<Rightarrow>
          (case readPdf env filePath of
             None \<Rightarrow> Some (p1, Inl PdfExtractionFailed)
           | Some text \<Rightarrow>
               (case splitIntoChunks text 500 50 of
                  None \<Rightarrow> None
                | Some cs \<Rightarrow>
                    (case embedChunks env (length text) cs 0 [] (metadata p1) of
                       (md, None) \<Rightarrow>
                         Some (p1\<lparr>chunks := cs, metadata := md\<rparr>, Inl EmbeddingFailed)
                     | (md, Some embeddings) \<Rightarrow>
                         (if length embeddings > 0 then
                            (case faissIndex p1 of
                               None \<Rightarrow>
                                 Some (p1\<lparr>chunks := cs, metadata := md\<rparr>,
                                       Inl IndexUnavailable)
                             | Some rows \<Rightarrow>
                                 Some (p1\<lparr>chunks := cs, metadata := md,
                                          faissIndex := Some (rows @ embeddings)\<rparr>, Inr ()))
                          else Some (p1\<lparr>chunks := cs, metadata := md\<rparr>, Inr ()))))))"

definition hasDocument :: "'v processor \<Rightarrow> bool" where
  "hasDocument p \<longleftrightarrow> length (chunks p) > 0"

definition getChunksCount :: "'v processor \<Rightarrow> nat" where
  "getChunksCount p = length (chunks p)"

text \<open>The number of rows of the index (\<open>ntotal\<close>); a \<open>null\<close> index has none.\<close>

definition indexSize :: "'v processor \<Rightarrow> nat" where
  "indexSize p = (case faissIndex p of None \<Rightarrow> 0 | Some rows \<Rightarrow> length rows)"

section \<open>searchSimilarChunks and query\<close>

text \<open>
  A result of \<open>searchSimilarChunks\<close>. Reading \<open>this.metadata\<close> beyond its end gives
  \<open>undefined\<close>, which is \<open>None\<close> here.
\<close>

record searchResult =
  chunk :: string
  resultMetadata :: "chunkMeta option"
  similarity :: real

definition arrayGet :: "'a list \<Rightarrow> nat \<Rightarrow> 'a option" where
  "arrayGet xs i = (if i < length xs then Some (xs ! i) else None)"

definition inRange :: "'v processor \<Rightarrow> int \<Rightarrow> bool" where
  "inRange p idx \<longleftrightarrow> idx \<ge> 0 \<and> idx < int (length (chunks p))"

definition makeResult :: "'v processor \<Rightarrow> int \<times> real \<Rightarrow> searchResult" where
  "makeResult p hit =
     \<lparr>chunk = chunks p ! nat (fst hit),
      resultMetadata = arrayGet (metadata p) (nat (fst hit)),
      similarity = 1 - snd hit\<rparr>"

text \<open>The \<open>for\<close> loop over the rows the index returned, with the array \<open>results\<close>.\<close>

fun collectResults ::
  "'v processor \<Rightarrow> (int \<times> real) list \<Rightarrow> searchResult list \<Rightarrow> searchResult list" where
  "collectResults p [] results = results"
| "collectResults p (hit # rest) results =
     collectResults p rest
       (if inRange p (fst hit) then results @ [makeResult p hit] else results)"

text \<open>
  Every exception inside the \<open>try\<close> block (the embedder, a \<open>null\<close> index, the search of
  the index) is caught and answered with the empty list.
\<close>

definition searchSimilarChunks ::
  "'v env \<Rightarrow> 'v processor \<Rightarrow> string \<Rightarrow> nat \<Rightarrow> searchResult list" where
  "searchSimilarChunks env p query topK =
     (if \<not> initialized p \<or> length (chunks p) = 0 then []
      else
        (case embed env query of
           None \<Rightarrow> []
         | Some queryVector \<Rightarrow>
             (case faissIndex p of
                None \<Rightarrow> []
              | Some rows \<Rightarrow>
                  (case search env rows queryVector topK of
                     None \<Rightarrow> []
                   | Some hits \<Rightarrow> collectResults p hits []))))"

record source =
  rank :: nat
  content :: string
  sourceMetadata :: "chunkMeta option"
  sourceSimilarity :: real

text \<open>The response of \<open>query\<close>, without its time stamp.\<close>

record response =
  answer :: string
  sources :: "source list"
  totalChunks :: nat
  relevantChunks :: nat
  queryText :: string
  supporting_chunks :: "string list"

fun joinWith :: "string \<Rightarrow> string list \<Rightarrow> string" where
  "joinWith sep [] = []"
| "joinWith sep [x] = x"
| "joinWith sep (x # y # ys) = x @ sep @ joinWith sep (y # ys)"

definition makeSource :: "nat \<times> searchResult \<Rightarrow> source" where
  "makeSource ir =
     \<lparr>rank = fst ir + 1, content = take 200 (chunk (snd ir)) @ ''...'',
      sourceMetadata = resultMetadata (snd ir), sourceSimilarity = similarity (snd ir)\<rparr>"

definition query :: "'v env \<Rightarrow> 'v processor \<Rightarrow> string \<Rightarrow> error + response" where
  "query env p userQuery =
     (let similarChunks = searchSimilarChunks env p userQuery 3 in
      if length similarChunks = 0 then Inl NoRelevantChunksFound
      else
        (case askPerplexity env userQuery
                (joinWith [CHR 0x0A, CHR 0x0A] (map chunk similarChunks)) of
           None \<Rightarrow> Inl PerplexityFailed
         | Some a \<Rightarrow>
             Inr \<lparr>answer = a,
                  sources = map makeSource (enumerate 0 similarChunks),
                  totalChunks = length (chunks p),
                  relevantChunks = length similarChunks,
                  queryText = userQuery,
                  supporting_chunks = map chunk similarChunks\<rparr>))"

text \<open>
  Collaborators for running the model on concrete documents: the path of a document
  is its text, the vector of a string is the string, the index answers every search
  with row 0 at distance 0, and the language model echoes the query.
\<close>

definition stubEnv :: "string env" where
  "stubEnv =
     \<lparr>loadModel = True, readPdf = Some, embed = Some,
      search = (\<lambda>rows q k. Some (take k [(0, 0)])),
      askPerplexity = (\<lambda>q c. Some q)\<rparr>"

text \<open>
  \<open>server.js\<close> holds one \<open>PDFProcessor\<close> and calls \<open>processPDF\<close> on it for every upload:
  two uploads in a row, the second one only when the first succeeded.
\<close>

definition uploadTwice ::
  "'v env \<Rightarrow> 'v processor \<Rightarrow> string \<Rightarrow> string \<Rightarrow> ('v processor \<times> (error + unit)) option" where
  "uploadTwice env p first second =
     (case processPDF env p first of
        Some (p1, Inr u) \<Rightarrow> processPDF env p1 second
      | other \<Rightarrow> other)"

text \<open>
  An index that answers every search with the same ranking, which names a row beyond
  the chunks and the label \<open>-1\<close>, and a processor that holds two chunks.
\<close>

definition rankedEnv :: "string env" where
  "rankedEnv =
     stubEnv\<lparr>search :=
       (\<lambda>rows q k. Some (take k [(1, 1/10), (7, 3/10), (0, 1/2), (- 1, 3/4)]))\<rparr>"


definition twoChunks :: "string processor" where
  "twoChunks =
     \<lparr>chunks = [''x'', ''y''], metadata = [metadataEntry 2 0, metadataEntry 2 1],
      faissIndex = Some [''x'', ''y''], initialized = True\<rparr>"

section \<open>Facts about the string primitives\<close>

lemma lastIndexFrom_numeral:
  "lastIndexFrom text c (numeral n) =
     (if numeral n < length text \<and> text ! numeral n = c then int (numeral n)
      else lastIndexFrom text c (pred_numeral n))"
  unfolding numeral_eq_Suc by simp

lemma lastIndexFrom_lower: "- 1 \<le> lastIndexFrom text c k"
  by (induction k) auto

lemma lastIndexFrom_upper: "lastIndexFrom text c k \<le> int k"
  by (induction k) auto

lemma lastIndexFrom_in_text: "lastIndexFrom text c k < int (length text)"
  by (induction k) auto

lemma lastIndexFrom_hit:
  "0 \<le> lastIndexFrom text c k \<Longrightarrow> text ! nat (lastIndexFrom text c k) = c"
  by (induction k) (auto split: if_splits simp: nat_add_distrib)

lemma lastIndexFrom_nearest:
  "lastIndexFrom text c k < int j \<Longrightarrow> j \<le> k \<Longrightarrow> j < length text \<Longrightarrow> text ! j \<noteq> c"
proof (induction k)
  case 0
  then show ?case by (auto split: if_splits)
next
  case (Suc k)
  show ?case
  proof (cases "j = Suc k")
    case True
    with Suc.prems show ?thesis by (auto split: if_splits)
  next
    case False
    with Suc.prems have "j \<le> k" by simp
    moreover from Suc.prems have "lastIndexFrom text c k < int j"
      by (auto split: if_splits)
    ultimately show ?thesis using Suc.IH Suc.prems(3) by blast
  qed
qed

lemma lastIndexOf_lower: "- 1 \<le> lastIndexOf text c pos"
  by (simp add: lastIndexOf_def lastIndexFrom_lower)

lemma lastIndexOf_in_text: "lastIndexOf text c pos < int (length text)"
  by (simp add: lastIndexOf_def lastIndexFrom_in_text)

lemma lastIndexOf_upper: "lastIndexOf text c pos \<le> max pos 0"
proof -
  have "lastIndexOf text c pos \<le> int (nat (min (max pos 0) (int (length text) - 1)))"
    unfolding lastIndexOf_def by (rule lastIndexFrom_upper)
  also have "\<dots> \<le> max pos 0" by simp
  finally show ?thesis .
qed

lemma lastIndexOf_hit:
  "0 \<le> lastIndexOf text c pos \<Longrightarrow> text ! nat (lastIndexOf text c pos) = c"
  unfolding lastIndexOf_def by (rule lastIndexFrom_hit)

lemma lastIndexOf_nearest:
  assumes "lastIndexOf text c pos < int j" and "int j \<le> pos" and "j < length text"
  shows "text ! j \<noteq> c"
proof -
  from assms have "j \<le> nat (min (max pos 0) (int (length text) - 1))" by simp
  moreover from assms(1)
  have "lastIndexFrom text c (nat (min (max pos 0) (int (length text) - 1))) < int j"
    by (simp add: lastIndexOf_def)
  ultimately show ?thesis using assms(3) lastIndexFrom_nearest by blast
qed

lemma length_trim: "length (trim s) \<le> length s"
proof -
  have "length (dropWhile isWhiteSpace (rev (dropWhile isWhiteSpace s)))
          \<le> length (rev (dropWhile isWhiteSpace s))"
    by (rule length_dropWhile_le)
  also have "\<dots> \<le> length s"
    by (simp add: length_dropWhile_le)
  finally show ?thesis by (simp add: trim_def)
qed

section \<open>Facts about one step of the loop\<close>

lemma midpoint_test:
  "(real_of_int bp > real_of_int start + real_of_int chunkSize * 0.5)
     = (2 * start + chunkSize < 2 * bp)"
proof -
  have "(real_of_int bp > real_of_int start + real_of_int chunkSize * 0.5)
          = (real_of_int (2 * start + chunkSize) < real_of_int (2 * bp))"
    by (simp add: field_simps)
  then show ?thesis by (simp only: of_int_less_iff)
qed

lemma breakPoint_lower: "- 1 \<le> breakPoint text e"
  using lastIndexOf_lower [of "text" "CHR ''.''" e] by (simp add: breakPoint_def max_def)

lemma breakPoint_in_text: "breakPoint text e < int (length text)"
  unfolding breakPoint_def by (simp add: lastIndexOf_in_text)

lemma breakPoint_upper: "breakPoint text e \<le> max e 0"
  unfolding breakPoint_def by (simp add: lastIndexOf_upper)

lemma splitLoop_step:
  "start < int (length text) \<Longrightarrow>
   splitLoop text chunkSize overlap start acc =
     splitLoop text chunkSize overlap (chunkEnd text chunkSize start - overlap)
       (if chunkAt text chunkSize start \<noteq> []
        then acc @ [chunkAt text chunkSize start] else acc)"
  by (subst splitLoop.simps) simp

lemma splitLoop_stop:
  "\<not> start < int (length text) \<Longrightarrow>
   splitLoop text chunkSize overlap start acc = Some acc"
  by (subst splitLoop.simps) simp

lemmas chunker_eval = splitIntoChunks_def splitLoop_step splitLoop_stop chunkEnd_def
  chunkAt_def breakPoint_def lastIndexOf_def lastIndexFrom_numeral slice_def trim_def
  isWhiteSpace_def

lemma chunkEnd_cases:
  "chunkEnd text chunkSize start =
     (if start + chunkSize < int (length text)
         \<and> 2 * start + chunkSize < 2 * breakPoint text (start + chunkSize)
      then breakPoint text (start + chunkSize) + 1 else start + chunkSize)"
  by (simp add: chunkEnd_def Let_def)

lemma slice_length_nat:
  "length (slice text a b) \<le>
     nat ((if b < 0 then max (int (length text) + b) 0 else min b (int (length text)))
          - (if a < 0 then max (int (length text) + a) 0 else min a (int (length text))))"
  unfolding slice_def Let_def length_take by (rule min.cobounded2)

lemma slice_length_le:
  "int (length (slice text a b)) \<le>
     max 0 ((if b < 0 then max (int (length text) + b) 0 else min b (int (length text)))
            - (if a < 0 then max (int (length text) + a) 0 else min a (int (length text))))"
  using slice_length_nat [of "text" a b] by linarith

lemma chunk_slice_length:
  assumes "0 \<le> chunkSize"
  shows "int (length (slice text start (chunkEnd text chunkSize start))) \<le> chunkSize + 1"
proof -
  define bp where "bp = breakPoint text (start + chunkSize)"
  have b1: "- 1 \<le> bp" and b2: "bp < int (length text)" and b3: "bp \<le> max (start + chunkSize) 0"
    unfolding bp_def by (rule breakPoint_lower breakPoint_in_text breakPoint_upper)+
  show ?thesis
    using slice_length_le [of "text" start "chunkEnd text chunkSize start"] b1 b2 b3 assms
    unfolding chunkEnd_cases bp_def [symmetric]
    by (auto simp: min_def max_def split: if_splits)
qed

lemma chunkAt_length:
  assumes "0 \<le> chunkSize"
  shows "int (length (chunkAt text chunkSize start)) \<le> chunkSize + 1"
proof -
  have "length (chunkAt text chunkSize start)
          \<le> length (slice text start (chunkEnd text chunkSize start))"
    unfolding chunkAt_def by (rule length_trim)
  with chunk_slice_length [OF assms, of "text" start] show ?thesis by linarith
qed

text \<open>What \<open>breakPoint\<close> finds is the nearest terminator at or before the proposed end.\<close>

lemma breakPoint_terminator:
  assumes "0 \<le> breakPoint text e"
  shows "isTerminator (text ! nat (breakPoint text e))"
proof (cases "lastIndexOf text (CHR 0x0A) e \<le> lastIndexOf text CHR ''.'' e")
  case True
  then have "breakPoint text e = lastIndexOf text CHR ''.'' e"
    by (simp add: breakPoint_def)
  with assms lastIndexOf_hit [of "text" "CHR ''.''" e] show ?thesis
    by (simp add: isTerminator_def)
next
  case False
  then have "breakPoint text e = lastIndexOf text (CHR 0x0A) e"
    by (simp add: breakPoint_def)
  with assms lastIndexOf_hit [of "text" "CHR 0x0A" e] show ?thesis
    by (simp add: isTerminator_def)
qed

lemma breakPoint_nearest:
  assumes "breakPoint text e < q" and "q \<le> e" and "q < int (length text)"
  shows "\<not> isTerminator (text ! nat q)"
proof -
  from assms(1) breakPoint_lower [of "text" e] have q0: "0 \<le> q" by linarith
  from assms(1) have l1: "lastIndexOf text CHR ''.'' e < int (nat q)"
    and l2: "lastIndexOf text (CHR 0x0A) e < int (nat q)"
    using q0 by (simp_all add: breakPoint_def)
  have le: "int (nat q) \<le> e" and lt: "nat q < length text"
    using assms(2,3) q0 by simp_all
  have "text ! nat q \<noteq> CHR ''.''" using l1 le lt by (rule lastIndexOf_nearest)
  moreover have "text ! nat q \<noteq> CHR 0x0A" using l2 le lt by (rule lastIndexOf_nearest)
  ultimately show ?thesis by (simp add: isTerminator_def)
qed

lemma breakPoint_is_candidate:
  assumes "0 \<le> breakPoint text e" and "0 \<le> e"
  shows "isBreakCandidate text e (breakPoint text e)"
  unfolding isBreakCandidate_def
  using assms breakPoint_upper [of "text" e] breakPoint_in_text [of "text" e]
    breakPoint_terminator [OF assms(1)] breakPoint_nearest [of "text" e]
  by auto

lemma candidate_is_breakPoint:
  assumes "isBreakCandidate text e p"
  shows "breakPoint text e = p"
proof -
  from assms have p: "0 \<le> p" "p \<le> e" "p < int (length text)" "isTerminator (text ! nat p)"
    and near: "\<And>q. p < q \<Longrightarrow> q \<le> e \<Longrightarrow> q < int (length text) \<Longrightarrow> \<not> isTerminator (text ! nat q)"
    by (auto simp: isBreakCandidate_def)
  have "\<not> breakPoint text e < p"
    using breakPoint_nearest [of "text" e p] p by blast
  then have ge: "p \<le> breakPoint text e" by simp
  with p(1) have b0: "0 \<le> breakPoint text e" by simp
  have "\<not> p < breakPoint text e"
  proof
    assume lt: "p < breakPoint text e"
    from p(1,2) have "breakPoint text e \<le> e"
      using breakPoint_upper [of "text" e] by simp
    with lt near breakPoint_in_text [of "text" e]
    have "\<not> isTerminator (text ! nat (breakPoint text e))" by blast
    with breakPoint_terminator [OF b0] show False by contradiction
  qed
  with ge show ?thesis by simp
qed

section \<open>Termination and divergence of the loop\<close>

lemma chunkEnd_advance:
  "overlap < chunkSize \<Longrightarrow> 2 * overlap \<le> chunkSize + 2 \<Longrightarrow>
   start < chunkEnd text chunkSize start - overlap"
  by (auto simp: chunkEnd_def Let_def)

lemma chunkEnd_stagnates:
  assumes "chunkSize \<le> overlap" and "0 < overlap" and "start < int (length text)"
  shows "chunkEnd text chunkSize start - overlap < int (length text)"
  using assms breakPoint_in_text [of "text" "start + chunkSize"]
  by (auto simp: chunkEnd_def Let_def)

text \<open>
  When every step moves the cursor forward, the distance of the cursor to the end of
  the text decreases, and the loop returns.
\<close>

lemma splitLoop_terminates:
  assumes "overlap < chunkSize" and "2 * overlap \<le> chunkSize + 2"
  shows "\<exists>r. splitLoop text chunkSize overlap start acc = Some r"
proof (induction "nat (int (length text) - start)" arbitrary: start acc rule: less_induct)
  case less
  show ?case
  proof (cases "start < int (length text)")
    case True
    let ?next = "chunkEnd text chunkSize start - overlap"
    have "start < ?next" using assms by (rule chunkEnd_advance)
    with True have "nat (int (length text) - ?next) < nat (int (length text) - start)"
      by simp
    then have "\<exists>r. splitLoop text chunkSize overlap ?next
        (if chunkAt text chunkSize start \<noteq> []
         then acc @ [chunkAt text chunkSize start] else acc) = Some r"
      by (rule less)
    then show ?thesis by (simp only: splitLoop_step [OF True])
  next
    case False
    then show ?thesis by (simp add: splitLoop_stop)
  qed
qed

text \<open>
  When a set of cursor positions inside the text is closed under the step of the loop,
  a run that starts in it never returns.
\<close>

lemma splitLoop_diverges:
  assumes inv: "I start"
    and step: "\<And>s. I s \<Longrightarrow> s < int (length text) \<and> I (chunkEnd text chunkSize s - overlap)"
  shows "splitLoop text chunkSize overlap start acc = None"
proof -
  have "\<not> (t = text \<and> c = chunkSize \<and> ov = overlap \<and> I s)"
    if run: "splitLoop t c ov s ch = Some y" for t c ov s ch y
  proof (rule splitLoop.raw_induct [OF _ run])
    fix f t c ov s ch y
    assume IH: "\<And>t c ov s ch y. f t c ov s ch = Some y \<Longrightarrow>
        \<not> (t = text \<and> c = chunkSize \<and> ov = overlap \<and> I s)"
      and body: "(if s < int (length t)
          then f t c ov (chunkEnd t c s - ov)
                (if chunkAt t c s \<noteq> [] then ch @ [chunkAt t c s] else ch)
          else Some ch) = Some y"
    show "\<not> (t = text \<and> c = chunkSize \<and> ov = overlap \<and> I s)"
    proof
      assume a: "t = text \<and> c = chunkSize \<and> ov = overlap \<and> I s"
      with step have lt: "s < int (length t)" and nx: "I (chunkEnd t c s - ov)" by auto
      from body lt have "f t c ov (chunkEnd t c s - ov)
          (if chunkAt t c s \<noteq> [] then ch @ [chunkAt t c s] else ch) = Some y"
        by simp
      from IH [OF this] a nx show False by simp
    qed
  qed
  then have "splitLoop text chunkSize overlap start acc \<noteq> Some y" for y
    using inv by blast
  then show ?thesis by (cases "splitLoop text chunkSize overlap start acc") auto
qed

text \<open>
  A property of the list of chunks that holds at the start and is kept by every push
  holds for the list the loop returns.
\<close>

lemma splitLoop_invariant:
  assumes run: "splitLoop text chunkSize overlap start acc = Some result"
    and init: "Q acc"
    and keep: "\<And>s a. Q a \<Longrightarrow> chunkAt text chunkSize s \<noteq> [] \<Longrightarrow> Q (a @ [chunkAt text chunkSize s])"
  shows "Q result"
proof -
  have "t = text \<and> c = chunkSize \<and> Q ch \<longrightarrow> Q y"
    if run': "splitLoop t c ov s ch = Some y" for t c ov s ch y
  proof (rule splitLoop.raw_induct [OF _ run'])
    fix f t c ov s ch y
    assume IH: "\<And>t c ov s ch y. f t c ov s ch = Some y \<Longrightarrow>
        t = text \<and> c = chunkSize \<and> Q ch \<longrightarrow> Q y"
      and body: "(if s < int (length t)
          then f t c ov (chunkEnd t c s - ov)
                (if chunkAt t c s \<noteq> [] then ch @ [chunkAt t c s] else ch)
          else Some ch) = Some y"
    show "t = text \<and> c = chunkSize \<and> Q ch \<longrightarrow> Q y"
    proof
      assume a: "t = text \<and> c = chunkSize \<and> Q ch"
      show "Q y"
      proof (cases "s < int (length t)")
        case True
        with body have "f t c ov (chunkEnd t c s - ov)
            (if chunkAt t c s \<noteq> [] then ch @ [chunkAt t c s] else ch) = Some y"
          by simp
        moreover from a keep
        have "Q (if chunkAt t c s \<noteq> [] then ch @ [chunkAt t c s] else ch)" by simp
        ultimately show ?thesis using IH a by blast
      next
        case False
        with body a show ?thesis by simp
      qed
    qed
  qed
  from this [OF run] init show ?thesis by simp
qed

section \<open>Facts about the processor\<close>

lemma embedChunks_success:
  "embedChunks env len cs i embeddings md = (md', Some embeddings') \<Longrightarrow>
   md' = md @ map (metadataEntry len) [i ..< i + length cs]
   \<and> length embeddings' = length embeddings + length cs"
proof (induction cs arbitrary: i embeddings md)
  case Nil
  then show ?case by simp
next
  case (Cons c cs)
  from Cons.prems obtain v where v: "embed env c = Some v"
    and rec: "embedChunks env len cs (Suc i) (embeddings @ [v]) (md @ [metadataEntry len i])
                = (md', Some embeddings')"
    by (auto split: option.splits)
  from Cons.IH [OF rec] show ?case
    by (simp add: upt_conv_Cons del: upt_Suc)
qed

lemma processPDF_success:
  assumes "processPDF env p filePath = Some (p', Inr ())"
  shows "\<exists>text. readPdf env filePath = Some text
      \<and> splitIntoChunks text 500 50 = Some (chunks p')
      \<and> metadata p' = metadata p @ map (metadataEntry (length text)) [0 ..< length (chunks p')]
      \<and> indexSize p' = (if initialized p then indexSize p else 0) + length (chunks p')
      \<and> initialized p'"
proof -
  from assms obtain p1 where p1: "initialize env p = Inr p1"
    by (auto simp: processPDF_def split: sum.splits)
  then have ini: "initialized p1" and same: "metadata p1 = metadata p"
    and size: "indexSize p1 = (if initialized p then indexSize p else 0)"
    by (auto simp: initialize_def indexSize_def split: if_splits)
  from assms p1 obtain body where t: "readPdf env filePath = Some body"
    by (auto simp: processPDF_def split: option.splits)
  from assms p1 t obtain cs where cs: "splitIntoChunks body 500 50 = Some cs"
    by (auto simp: processPDF_def split: option.splits)
  obtain md e where emb: "embedChunks env (length body) cs 0 [] (metadata p1) = (md, e)"
    by (cases "embedChunks env (length body) cs 0 [] (metadata p1)")
  from assms p1 t cs emb obtain embs where e: "e = Some embs"
    by (cases e) (auto simp: processPDF_def)
  from embedChunks_success [OF emb [unfolded e]]
  have md: "md = metadata p1 @ map (metadataEntry (length body)) [0 ..< length cs]"
    and len: "length embs = length cs" by simp_all
  from assms p1 t cs emb e len ini same size show ?thesis
    by (auto simp: processPDF_def md indexSize_def split: if_splits option.splits)
qed

text \<open>On a processor that has indexed nothing, a successful call leaves as many rows as chunks.\<close>

lemma first_upload_aligned:
  assumes "processPDF env newProcessor filePath = Some (p', Inr ())"
  shows "getChunksCount p' = indexSize p'"
  using processPDF_success [OF assms] by (auto simp: newProcessor_def getChunksCount_def)

text \<open>After a successful call the metadata holds an entry for every chunk.\<close>

lemma processPDF_metadata_covers:
  assumes "processPDF env p filePath = Some (p', Inr ())"
  shows "length (chunks p') \<le> length (metadata p')"
  using processPDF_success [OF assms] by auto

lemma splitIntoChunks_short:
  "splitIntoChunks ''a'' 500 50 = Some [''a'']" "splitIntoChunks ''b'' 500 50 = Some [''b'']"
  "splitIntoChunks [] 500 50 = Some []"
  by (simp_all add: chunker_eval)

lemma splitIntoChunks_480:
  "splitIntoChunks (replicate 480 CHR ''a'') 500 50
     = Some [replicate 480 CHR ''a'', replicate 30 CHR ''a'']"
  by (simp add: chunker_eval)

lemmas processor_eval = processPDF_def initialize_def newProcessor_def stubEnv_def
  metadataEntry_def getChunksCount_def indexSize_def

lemma processPDF_480:
  "processPDF stubEnv newProcessor (replicate 480 CHR ''a'') =
     Some (\<lparr>chunks = [replicate 480 CHR ''a'', replicate 30 CHR ''a''],
            metadata = [\<lparr>chunkIndex = 0, startChar = 0, endChar = 480, pageNumber = 1\<rparr>,
                        \<lparr>chunkIndex = 1, startChar = 500, endChar = 480, pageNumber = 1\<rparr>],
            faissIndex = Some [replicate 480 CHR ''a'', replicate 30 CHR ''a''],
            initialized = True\<rparr>, Inr ())"
  by (simp add: processor_eval splitIntoChunks_480)

lemma collectResults_eq:
  "collectResults p hits acc = acc @ map (makeResult p) (filter (\<lambda>h. inRange p (fst h)) hits)"
  by (induction hits arbitrary: acc) simp_all

lemma sorted_similarity:
  "sorted (map snd hits) \<Longrightarrow>
   sorted_wrt (\<ge>) (map similarity (map (makeResult p) (filter P hits)))"
proof (induction hits)
  case Nil
  then show ?case by simp
next
  case (Cons h hits)
  then show ?case by (auto simp: makeResult_def)
qed

lemma searchSimilarChunks_cases:
  "searchSimilarChunks env p q topK = [] \<or>
   (\<exists>qv rows hits. initialized p \<and> chunks p \<noteq> [] \<and> embed env q = Some qv
      \<and> faissIndex p = Some rows \<and> search env rows qv topK = Some hits
      \<and> searchSimilarChunks env p q topK
           = map (makeResult p) (filter (\<lambda>h. inRange p (fst h)) hits))"
  by (auto simp: searchSimilarChunks_def collectResults_eq split: option.splits)

lemmas search_eval = searchSimilarChunks_def rankedEnv_def stubEnv_def twoChunks_def
  inRange_def makeResult_def arrayGet_def metadataEntry_def

section \<open>Claims about splitIntoChunks\<close>

text \<open>
  Claim C3, as stated: for every text and all parameters with \<open>overlap < chunkSize\<close>,
  \<open>splitIntoChunks\<close> terminates. It fails: with \<open>chunkSize = 5\<close> and \<open>overlap = 4\<close> on
  the text \<open>abc.efg\<close> the period at index 3 is accepted as the break (3 is past the
  midpoint 2.5), the chunk ends at 4, and the cursor goes back to \<open>4 - 4 = 0\<close>. The call
  never returns.
\<close>

theorem splitIntoChunks_overlap_below_size_diverges:
  "(4::int) < 5 \<and> splitIntoChunks ''abc.efg'' 5 4 = None"
proof -
  have "chunkEnd ''abc.efg'' 5 0 - 4 = 0"
    by (simp add: chunker_eval)
  then have "splitLoop ''abc.efg'' 5 4 0 [] = None"
    by (intro splitLoop_diverges [where I = "\<lambda>s. s = 0"]) simp_all
  then show ?thesis by (simp add: splitIntoChunks_def)
qed

text \<open>
  Claim C3, amended: for every text and all parameters with \<open>overlap < chunkSize\<close> and
  \<open>2 * overlap \<le> chunkSize + 2\<close> (the overlap is at most one more than half the chunk
  size, as with the defaults 500 and 50), \<open>splitIntoChunks\<close> terminates and returns a
  list of chunks.
\<close>

theorem splitIntoChunks_terminates:
  assumes "overlap < chunkSize" and "2 * overlap \<le> chunkSize + 2"
  shows "\<exists>result. splitIntoChunks text chunkSize overlap = Some result"
  unfolding splitIntoChunks_def using assms by (rule splitLoop_terminates)

theorem splitIntoChunks_terminates_witness:
  "(50::int) < 500 \<and> 2 * (50::int) \<le> 500 + 2
   \<and> (\<exists>result. splitIntoChunks ''One sentence. Another sentence.'' 500 50 = Some result)
   \<and> splitIntoChunks ''One sentence. Another sentence.'' 500 50
        = Some [''One sentence. Another sentence.'']"
proof -
  have "splitIntoChunks ''One sentence. Another sentence.'' 500 50
      = Some [''One sentence. Another sentence.'']"
    by (simp add: chunker_eval)
  with splitIntoChunks_terminates [of 50 500 "''One sentence. Another sentence.''"]
  show ?thesis by simp
qed

text \<open>
  Claim C7, as stated: with \<open>overlap \<ge> chunkSize\<close> the implementation guards against
  the cursor that does not advance and raises a configuration error. It fails: the
  function has no check of its parameters and no error result; with \<open>chunkSize = 1\<close> and
  \<open>overlap = 1\<close> on the text \<open>a\<close> the cursor stays at 0 and the call never returns.
\<close>

theorem splitIntoChunks_no_guard:
  "(1::int) \<ge> 1 \<and> splitIntoChunks ''a'' 1 1 = None"
proof -
  have "chunkEnd ''a'' 1 0 - 1 = 0"
    by (simp add: chunker_eval)
  then have "splitLoop ''a'' 1 1 0 [] = None"
    by (intro splitLoop_diverges [where I = "\<lambda>s. s = 0"]) simp_all
  then show ?thesis by (simp add: splitIntoChunks_def)
qed

text \<open>
  Claim C7, amended: \<open>splitIntoChunks\<close> does not guard against a cursor that does not
  advance. On every non-empty text, with \<open>overlap \<ge> chunkSize\<close> and a positive
  overlap, the cursor never reaches the end of the text and the call never returns;
  no error is raised.
\<close>

theorem splitIntoChunks_overlap_not_below_size:
  assumes "chunkSize \<le> overlap" and "0 < overlap" and "text \<noteq> []"
  shows "splitIntoChunks text chunkSize overlap = None"
proof -
  have "splitLoop text chunkSize overlap 0 [] = None"
  proof (rule splitLoop_diverges [where I = "\<lambda>s. s < int (length text)"])
    show "0 < int (length text)" using assms(3) by simp
  next
    fix s assume "s < int (length text)"
    with assms(1,2) show "s < int (length text) \<and>
        chunkEnd text chunkSize s - overlap < int (length text)"
      by (simp add: chunkEnd_stagnates)
  qed
  then show ?thesis by (simp add: splitIntoChunks_def)
qed

theorem splitIntoChunks_overlap_not_below_size_witness:
  "(2::int) \<le> 3 \<and> (0::int) < 3 \<and> ''ab. cd'' \<noteq> [] \<and> splitIntoChunks ''ab. cd'' 2 3 = None"
  using splitIntoChunks_overlap_not_below_size [of 2 3 "''ab. cd''"]
  by simp

text \<open>
  Claim C8: when the proposed end \<open>start + chunkSize\<close> lies before the end of the text,
  the nearest \<open>.\<close> or newline found looking backward from the proposed end becomes the
  end of the chunk only if its position is strictly greater than
  \<open>start + chunkSize * 0.5\<close>; otherwise, and when there is none, the proposed end is
  kept. The accepted terminator is the last character of the chunk: \<open>end\<close> is set one
  past it. The search starts at the proposed end itself, so the terminator may sit there.
\<close>

theorem chunkEnd_break_rule:
  assumes "0 \<le> start" and "0 \<le> chunkSize" and "start + chunkSize < int (length text)"
  shows "(\<forall>p. isBreakCandidate text (start + chunkSize) p \<longrightarrow>
            chunkEnd text chunkSize start =
              (if real_of_int p > real_of_int start + real_of_int chunkSize * 0.5
               then p + 1 else start + chunkSize))
       \<and> ((\<nexists>p. isBreakCandidate text (start + chunkSize) p) \<longrightarrow>
            chunkEnd text chunkSize start = start + chunkSize)"
proof (intro conjI allI impI)
  fix p
  assume "isBreakCandidate text (start + chunkSize) p"
  then have "breakPoint text (start + chunkSize) = p" by (rule candidate_is_breakPoint)
  with assms(3) show "chunkEnd text chunkSize start =
      (if real_of_int p > real_of_int start + real_of_int chunkSize * 0.5
       then p + 1 else start + chunkSize)"
    by (simp only: chunkEnd_cases midpoint_test) simp
next
  assume none: "\<nexists>p. isBreakCandidate text (start + chunkSize) p"
  have "\<not> 0 \<le> breakPoint text (start + chunkSize)"
    using breakPoint_is_candidate [of "text" "start + chunkSize"] none assms(1,2) by auto
  with assms(1,2) show "chunkEnd text chunkSize start = start + chunkSize"
    by (simp add: chunkEnd_cases)
qed

theorem chunkEnd_break_rule_witness:
  "(0::int) \<le> 0 \<and> (0::int) \<le> 10 \<and> 0 + 10 < int (length ''hello wo.ld abcdef'')
   \<and> isBreakCandidate ''hello wo.ld abcdef'' (0 + 10) 8
   \<and> real_of_int 8 > real_of_int 0 + real_of_int 10 * 0.5
   \<and> chunkEnd ''hello wo.ld abcdef'' 10 0 = 8 + 1"
proof -
  have span: "{8 <.. 10 :: int} = {9, 10}" by auto
  have cand: "isBreakCandidate ''hello wo.ld abcdef'' (0 + 10) 8"
    by (simp add: isBreakCandidate_def isTerminator_def span)
  from chunkEnd_break_rule [of 0 10 "''hello wo.ld abcdef''"] cand
  have "chunkEnd ''hello wo.ld abcdef'' 10 0 = 8 + 1" by fastforce
  with cand show ?thesis by simp
qed

text \<open>
  Claim C10, as stated: for every text, every \<open>chunkSize\<close> and every \<open>overlap\<close>, every
  chunk returned is non-empty and at most \<open>chunkSize + 1\<close> long. It fails for a negative
  chunk size: with \<open>chunkSize = -1\<close> the proposed end \<open>-1\<close> counts from the end of the
  text in \<open>slice\<close>, and \<open>abc\<close> gives the chunk \<open>ab\<close>, longer than \<open>-1 + 1 = 0\<close>.
\<close>

theorem splitIntoChunks_negative_size_chunk:
  "splitIntoChunks ''abc'' (- 1) (- 10) = Some [''ab''] \<and> \<not> int (length ''ab'') \<le> - 1 + 1"
  by (simp add: chunker_eval)

text \<open>
  Claim C10, amended: for every text, every \<open>chunkSize \<ge> 0\<close> and every \<open>overlap\<close>, every
  chunk returned by \<open>splitIntoChunks\<close> is non-empty and at most \<open>chunkSize + 1\<close> long.
  The witness reaches the bound: the period at the proposed end 10 is accepted and the
  chunk has 11 characters.
\<close>

theorem splitIntoChunks_chunk_lengths:
  assumes "0 \<le> chunkSize" and "splitIntoChunks text chunkSize overlap = Some result"
    and "c \<in> set result"
  shows "c \<noteq> [] \<and> int (length c) \<le> chunkSize + 1"
proof -
  have "\<forall>c \<in> set result. c \<noteq> [] \<and> int (length c) \<le> chunkSize + 1"
  proof (rule splitLoop_invariant
      [where Q = "\<lambda>a. \<forall>c \<in> set a. c \<noteq> [] \<and> int (length c) \<le> chunkSize + 1"])
    show "splitLoop text chunkSize overlap 0 [] = Some result"
      using assms(2) by (simp add: splitIntoChunks_def)
  next
    show "\<forall>c \<in> set []. c \<noteq> [] \<and> int (length c) \<le> chunkSize + 1" by simp
  next
    fix s and a :: "string list"
    assume "\<forall>c \<in> set a. c \<noteq> [] \<and> int (length c) \<le> chunkSize + 1"
      and "chunkAt text chunkSize s \<noteq> []"
    then show "\<forall>c \<in> set (a @ [chunkAt text chunkSize s]).
        c \<noteq> [] \<and> int (length c) \<le> chunkSize + 1"
      using chunkAt_length [OF assms(1), of "text" s] by auto
  qed
  with assms(3) show ?thesis by blast
qed

theorem splitIntoChunks_chunk_lengths_witness:
  "(0::int) \<le> 10 \<and> splitIntoChunks ''hello worl. abc'' 10 2 = Some [''hello worl.'', ''l. abc'']
   \<and> ''hello worl.'' \<in> set [''hello worl.'', ''l. abc'']
   \<and> ''hello worl.'' \<noteq> [] \<and> int (length ''hello worl.'') \<le> 10 + 1"
proof -
  have run: "splitIntoChunks ''hello worl. abc'' 10 2 = Some [''hello worl.'', ''l. abc'']"
    by (simp add: chunker_eval)
  have mem: "''hello worl.'' \<in> set [''hello worl.'', ''l. abc'']" by simp
  from splitIntoChunks_chunk_lengths [OF _ run mem] run mem show ?thesis by simp
qed

section \<open>Claims about processPDF\<close>

text \<open>
  Claim C1: after every successful \<open>processPDF\<close> the number of chunks equals the size of
  the vector index, also when a document replaces an earlier one. The code breaks it on
  the second upload: \<open>this.chunks\<close> is assigned anew, but the rows of the new document
  are added to the index that still holds the rows of the old one. After the documents
  \<open>a\<close> and \<open>b\<close>, one chunk is held and the index has two rows.
\<close>

theorem second_upload_index_exceeds_chunks:
  "map_option (\<lambda>(p, r). (r, getChunksCount p, indexSize p))
     (uploadTwice stubEnv newProcessor ''a'' ''b'') = Some (Inr (), 1, 2)"
  by (simp add: uploadTwice_def processor_eval splitIntoChunks_short)

text \<open>
  Claim C2: \<open>processPDF\<close> clears the chunk list, the metadata and the vector index before
  it indexes the new document. The code replaces the chunk list only: after the
  documents \<open>a\<close> and \<open>b\<close>, \<open>getChunksCount\<close> is that of \<open>b\<close> alone, but the index still holds
  the row of \<open>a\<close> before the row of \<open>b\<close>, and the metadata holds the entry of \<open>a\<close> before
  the entry of \<open>b\<close>.
\<close>

theorem second_upload_keeps_old_rows:
  "map_option (\<lambda>(p, r). (r, getChunksCount p, faissIndex p, map chunkIndex (metadata p)))
     (uploadTwice stubEnv newProcessor ''a'' ''b'')
   = Some (Inr (), 1, Some [''a'', ''b''], [0, 0])"
  by (simp add: uploadTwice_def processor_eval splitIntoChunks_short)

text \<open>
  Claim C9: the metadata of chunk \<open>i\<close> records the offsets \<open>[cursor, end)\<close> at which the
  chunk was cut, with the start below the end, and the page \<open>i div 5 + 1\<close>. The code
  breaks it on the offsets: it computes them from the index of the chunk as if the
  chunks were cut every 500 characters, without the overlap and the sentence breaks of
  \<open>splitIntoChunks\<close>, and clamps the end to the text but not the start. A text of 480
  characters gives a second chunk, cut at cursor 450 up to the end of the text, whose
  metadata says \<open>startChar = 500\<close> and \<open>endChar = 480\<close>.
\<close>

theorem metadata_offsets_not_chunk_offsets:
  "processPDF stubEnv newProcessor (replicate 480 CHR ''a'') =
     Some (\<lparr>chunks = [replicate 480 CHR ''a'', replicate 30 CHR ''a''],
            metadata = [\<lparr>chunkIndex = 0, startChar = 0, endChar = 480, pageNumber = 1\<rparr>,
                        \<lparr>chunkIndex = 1, startChar = 500, endChar = 480, pageNumber = 1\<rparr>],
            faissIndex = Some [replicate 480 CHR ''a'', replicate 30 CHR ''a''],
            initialized = True\<rparr>, Inr ())
   \<and> chunkAt (replicate 480 CHR ''a'') 500 450 = replicate 30 CHR ''a''
   \<and> \<not> (500::nat) < 480"
  by (simp add: processPDF_480) (simp add: chunker_eval)

section \<open>Claims about searchSimilarChunks and query\<close>

text \<open>
  Claim C4: \<open>searchSimilarChunks\<close> with \<open>topK\<close> returns at most \<open>topK\<close> results, in the
  order of non-increasing similarity, and the similarity of a result is 1 minus the
  distance the index reported for its row. The index is a library: the theorem assumes
  of its answer to this search what \<open>IndexFlatL2.search\<close> gives, at most \<open>topK\<close> rows
  in the order of ascending distance.
\<close>

theorem searchSimilarChunks_ranked:
  assumes contract: "\<And>qv rows hits. embed env q = Some qv \<Longrightarrow> faissIndex p = Some rows \<Longrightarrow>
      search env rows qv topK = Some hits \<Longrightarrow> length hits \<le> topK \<and> sorted (map snd hits)"
  shows "length (searchSimilarChunks env p q topK) \<le> topK
    \<and> sorted_wrt (\<ge>) (map similarity (searchSimilarChunks env p q topK))
    \<and> (\<forall>qv rows hits. initialized p \<and> chunks p \<noteq> [] \<and> embed env q = Some qv
          \<and> faissIndex p = Some rows \<and> search env rows qv topK = Some hits \<longrightarrow>
        map similarity (searchSimilarChunks env p q topK)
          = map (\<lambda>h. 1 - snd h) (filter (\<lambda>h. inRange p (fst h)) hits))"
proof (intro conjI allI impI)
  show "length (searchSimilarChunks env p q topK) \<le> topK"
    using searchSimilarChunks_cases [of env p q topK]
  proof
    assume "searchSimilarChunks env p q topK = []"
    then show ?thesis by simp
  next
    assume "\<exists>qv rows hits. initialized p \<and> chunks p \<noteq> [] \<and> embed env q = Some qv
      \<and> faissIndex p = Some rows \<and> search env rows qv topK = Some hits
      \<and> searchSimilarChunks env p q topK
           = map (makeResult p) (filter (\<lambda>h. inRange p (fst h)) hits)"
    then obtain qv rows hits where h: "embed env q = Some qv" "faissIndex p = Some rows"
      "search env rows qv topK = Some hits"
      and r: "searchSimilarChunks env p q topK
           = map (makeResult p) (filter (\<lambda>h. inRange p (fst h)) hits)"
      by blast
    have "length (filter (\<lambda>h. inRange p (fst h)) hits) \<le> length hits"
      by (rule length_filter_le)
    also from contract [OF h] have "\<dots> \<le> topK" by simp
    finally show ?thesis by (simp add: r)
  qed
next
  show "sorted_wrt (\<ge>) (map similarity (searchSimilarChunks env p q topK))"
    using searchSimilarChunks_cases [of env p q topK]
  proof
    assume "searchSimilarChunks env p q topK = []"
    then show ?thesis by simp
  next
    assume "\<exists>qv rows hits. initialized p \<and> chunks p \<noteq> [] \<and> embed env q = Some qv
      \<and> faissIndex p = Some rows \<and> search env rows qv topK = Some hits
      \<and> searchSimilarChunks env p q topK
           = map (makeResult p) (filter (\<lambda>h. inRange p (fst h)) hits)"
    then obtain qv rows hits where h: "embed env q = Some qv" "faissIndex p = Some rows"
      "search env rows qv topK = Some hits"
      and r: "searchSimilarChunks env p q topK
           = map (makeResult p) (filter (\<lambda>h. inRange p (fst h)) hits)"
      by blast
    from contract [OF h] have "sorted (map snd hits)" by simp
    then show ?thesis unfolding r by (rule sorted_similarity)
  qed
next
  fix qv rows hits
  assume "initialized p \<and> chunks p \<noteq> [] \<and> embed env q = Some qv
          \<and> faissIndex p = Some rows \<and> search env rows qv topK = Some hits"
  then show "map similarity (searchSimilarChunks env p q topK)
          = map (\<lambda>h. 1 - snd h) (filter (\<lambda>h. inRange p (fst h)) hits)"
    by (simp add: searchSimilarChunks_def collectResults_eq makeResult_def comp_def)
qed

theorem searchSimilarChunks_ranked_witness:
  "length (searchSimilarChunks rankedEnv twoChunks ''q'' 3) \<le> 3
   \<and> sorted_wrt (\<ge>) (map similarity (searchSimilarChunks rankedEnv twoChunks ''q'' 3))
   \<and> map similarity (searchSimilarChunks rankedEnv twoChunks ''q'' 3) = [9/10, 1/2]"
proof -
  have contract: "length hits \<le> 3 \<and> sorted (map snd hits)"
    if "embed rankedEnv ''q'' = Some qv" and "faissIndex twoChunks = Some rows"
      and "search rankedEnv rows qv 3 = Some hits" for rows qv hits
    using that(3) by (auto simp: rankedEnv_def)
  have ranked: "length (searchSimilarChunks rankedEnv twoChunks ''q'' 3) \<le> 3
    \<and> sorted_wrt (\<ge>) (map similarity (searchSimilarChunks rankedEnv twoChunks ''q'' 3))
    \<and> (\<forall>qv rows hits. initialized twoChunks \<and> chunks twoChunks \<noteq> []
          \<and> embed rankedEnv ''q'' = Some qv \<and> faissIndex twoChunks = Some rows
          \<and> search rankedEnv rows qv 3 = Some hits \<longrightarrow>
        map similarity (searchSimilarChunks rankedEnv twoChunks ''q'' 3)
          = map (\<lambda>h. 1 - snd h) (filter (\<lambda>h. inRange twoChunks (fst h)) hits))"
    using contract by (rule searchSimilarChunks_ranked)
  have run: "initialized twoChunks \<and> chunks twoChunks \<noteq> []
      \<and> embed rankedEnv ''q'' = Some ''q'' \<and> faissIndex twoChunks = Some [''x'', ''y'']
      \<and> search rankedEnv [''x'', ''y''] ''q'' 3 = Some [(1, 1/10), (7, 3/10), (0, 1/2)]"
    by (simp add: twoChunks_def rankedEnv_def stubEnv_def)
  from ranked run have "map similarity (searchSimilarChunks rankedEnv twoChunks ''q'' 3)
      = map (\<lambda>h. 1 - snd h)
          (filter (\<lambda>h. inRange twoChunks (fst h)) [(1, 1/10), (7, 3/10), (0, 1/2)])"
    by blast
  also have "\<dots> = [9/10, 1/2]"
    by (simp add: inRange_def twoChunks_def)
  finally show ?thesis using ranked by simp
qed

text \<open>
  Claim C5: on a processor with no indexed document (not initialized, or holding no
  chunks) \<open>searchSimilarChunks\<close> returns no result, whatever the index and the metadata
  hold from earlier documents, and \<open>query\<close> fails with its reported error. The witness
  is the processor after the document \<open>a\<close> and then an empty document: the index still
  holds the row of \<open>a\<close>, and nothing is returned.
\<close>

theorem query_without_document:
  assumes "\<not> initialized p \<or> \<not> hasDocument p"
  shows "searchSimilarChunks env p q topK = [] \<and> query env p q = Inl NoRelevantChunksFound"
  using assms by (auto simp: searchSimilarChunks_def query_def hasDocument_def)

theorem query_without_document_witness:
  "(let p = \<lparr>chunks = [],
             metadata = [\<lparr>chunkIndex = 0, startChar = 0, endChar = 1, pageNumber = 1\<rparr>],
             faissIndex = Some [''a''], initialized = True\<rparr>
    in uploadTwice stubEnv newProcessor ''a'' [] = Some (p, Inr ())
       \<and> \<not> hasDocument p
       \<and> searchSimilarChunks stubEnv p ''q'' 3 = []
       \<and> query stubEnv p ''q'' = Inl NoRelevantChunksFound)"
proof -
  let ?p = "\<lparr>chunks = [],
             metadata = [\<lparr>chunkIndex = 0, startChar = 0, endChar = 1, pageNumber = 1\<rparr>],
             faissIndex = Some [''a''], initialized = True\<rparr>"
  have reach: "uploadTwice stubEnv newProcessor ''a'' [] = Some (?p, Inr ())"
    by (simp add: uploadTwice_def processor_eval splitIntoChunks_short)
  have none: "\<not> hasDocument ?p" by (simp add: hasDocument_def)
  from query_without_document [of ?p stubEnv "''q''" 3] none reach show ?thesis by simp
qed




end
